theory Spec2Isabelle
  imports Complex_Main
begin

section \<open>The SVG reader of vpype (\<^verbatim>\<open>vpype/read.py\<close>)\<close>

text \<open>
  The command \<^verbatim>\<open>read\<close> turns the flattened paths of an SVG document into polylines. Its
  body has four parts, modelled one by one and in the order of the source: the transform
  taken from the root's \<^verbatim>\<open>viewBox\<close>, \<^verbatim>\<open>width\<close> and \<^verbatim>\<open>height\<close> (lines 42 to 60), the
  linearisation of one path element (lines 65 to 74), the scaling of its points (lines 76 to
  80) and the two nested loops that collect the polylines (lines 62 to 84).

  A float is modelled by the real number it stands for and a complex float by a complex
  number. The arithmetic of the transform and of the scaling is that of the reals. The two
  divisions of the linearisation, whose rounding decides how many points a curve gets and at
  which fractions, are parameters. Every exception the body can raise is a value of \<open>error\<close>,
  and a computation that may raise has the type \<open>error + 'a\<close>.
\<close>

subsection \<open>Exceptions\<close>

datatype error = KeyError string | ValueError | IndexError | ZeroDivisionError | OverflowError

definition and_then :: "error + 'a \<Rightarrow> ('a \<Rightarrow> error + 'b) \<Rightarrow> error + 'b" where
  "and_then m f = (case m of Inl e \<Rightarrow> Inl e | Inr x \<Rightarrow> f x)"

text \<open>A list comprehension \<^verbatim>\<open>[f(s) for s in xs]\<close>: the first call that raises ends it.\<close>

fun comprehension :: "('a \<Rightarrow> error + 'b) \<Rightarrow> 'a list \<Rightarrow> error + 'b list" where
  "comprehension f [] = Inr []"
| "comprehension f (x # xs) =
     and_then (f x) (\<lambda>y. and_then (comprehension f xs) (\<lambda>ys. Inr (y # ys)))"

subsection \<open>Python primitives used by the body\<close>

text \<open>\<^verbatim>\<open>d[k]\<close> on a dictionary raises \<^verbatim>\<open>KeyError\<close> for a missing key.\<close>

definition dict_getitem :: "(string \<rightharpoonup> 'v) \<Rightarrow> string \<Rightarrow> error + 'v" where
  "dict_getitem d k = (case d k of None \<Rightarrow> Inl (KeyError k) | Some v \<Rightarrow> Inr v)"

text \<open>
  \<^verbatim>\<open>xs[i]\<close> and \<^verbatim>\<open>xs[i] = v\<close> on a list or an array: a negative index counts from the end,
  and an index out of range raises \<^verbatim>\<open>IndexError\<close>.
\<close>

definition norm_index :: "nat \<Rightarrow> int \<Rightarrow> error + nat" where
  "norm_index len i =
     (if i < - int len \<or> int len \<le> i then Inl IndexError
      else if i < 0 then Inr (nat (int len + i))
      else Inr (nat i))"

definition getitem :: "'a list \<Rightarrow> int \<Rightarrow> error + 'a" where
  "getitem xs i = and_then (norm_index (length xs) i) (\<lambda>j. Inr (xs ! j))"

definition setitem :: "'a list \<Rightarrow> int \<Rightarrow> 'a \<Rightarrow> error + 'a list" where
  "setitem xs i v = and_then (norm_index (length xs) i) (\<lambda>j. Inr (xs[j := v]))"

text \<open>\<^verbatim>\<open>a / b\<close> on floats raises \<^verbatim>\<open>ZeroDivisionError\<close> when the divisor is zero.\<close>

definition truediv :: "real \<Rightarrow> real \<Rightarrow> error + real" where
  "truediv a b = (if b = 0 then Inl ZeroDivisionError else Inr (a / b))"

text \<open>
  \<^verbatim>\<open>s.split()\<close>: the maximal runs of characters that are not whitespace, in order.
  Characters are code points below 256; \<open>isspace\<close> lists the ones Python counts as
  whitespace there.
\<close>

definition isspace :: "char \<Rightarrow> bool" where
  "isspace c =
     (let n = (of_char c :: nat)
      in (9 \<le> n \<and> n \<le> 13) \<or> (28 \<le> n \<and> n \<le> 32) \<or> n = 133 \<or> n = 160)"

fun split_from :: "string \<Rightarrow> string \<Rightarrow> string list" where
  "split_from w [] = (if w = [] then [] else [w])"
| "split_from w (c # cs) =
     (if isspace c then (if w = [] then split_from [] cs else w # split_from [] cs)
      else split_from (w @ [c]) cs)"

definition str_split :: "string \<Rightarrow> string list" where
  "str_split s = split_from [] s"

text \<open>
  \<^verbatim>\<open>range(n)\<close> is \<open>[0..n - 1]\<close>, empty when \<open>n \<le> 0\<close>.

  \<^verbatim>\<open>np.empty(n, dtype=complex)\<close> allocates \<open>n\<close> cells without initialising them, and
  raises \<^verbatim>\<open>ValueError\<close> for a negative \<open>n\<close>. What the cells hold is the parameter \<open>junk\<close>,
  about which nothing is assumed.
\<close>

definition np_empty :: "(nat \<Rightarrow> complex) \<Rightarrow> int \<Rightarrow> error + complex list" where
  "np_empty junk n = (if n < 0 then Inl ValueError else Inr (map junk [0..<nat n]))"

subsection \<open>Data\<close>

text \<open>
  A path element of \<^verbatim>\<open>svgpathtools\<close> is a \<^verbatim>\<open>Line\<close> or a curved element (a Bezier curve or
  an arc). The body reads \<^verbatim>\<open>start\<close> and \<^verbatim>\<open>end\<close> of both, and calls \<^verbatim>\<open>length()\<close> and
  \<^verbatim>\<open>point(t)\<close> of a curved element only.
\<close>

datatype segment =
    Line (seg_start: complex) (seg_end: complex)
  | Curve (seg_start: complex) (seg_end: complex) (seg_length: real) (seg_point: "real \<Rightarrow> complex")

text \<open>
  The parsed document: the attributes of the root element and the result of
  \<^verbatim>\<open>flatten_all_paths()\<close>, each entry of which carries the elements of one path.
\<close>

record document =
  root_attrib :: "string \<rightharpoonup> string"
  results :: "segment list list"

record transform =
  scale_x :: real
  scale_y :: real
  offset_x :: real
  offset_y :: real

datatype LineString = LineString (coords: "(real \<times> real) list")

datatype MultiLineString = MultiLineString (geoms: "LineString list")

subsection \<open>Lines 42 to 60: the transform of the root element\<close>

text \<open>
  \<^verbatim>\<open>convert\<close> comes from \<^verbatim>\<open>vpype/utils.py\<close> and \<^verbatim>\<open>float\<close> is Python's reader of float
  literals; both are parameters here, and either may raise.
\<close>

definition viewbox_transform ::
    "(string \<Rightarrow> error + real) \<Rightarrow> (string \<Rightarrow> error + real) \<Rightarrow> (string \<rightharpoonup> string)
     \<Rightarrow> error + transform" where
  "viewbox_transform convert float attrib =
     (case attrib ''viewBox'' of
        Some vb \<Rightarrow>
          and_then (dict_getitem attrib ''width'') (\<lambda>ws.
          and_then (convert ws) (\<lambda>w.
          and_then (dict_getitem attrib ''height'') (\<lambda>hs.
          and_then (convert hs) (\<lambda>h.
          and_then (comprehension float (str_split vb)) (\<lambda>viewbox.
          and_then (getitem viewbox 2) (\<lambda>v2.
          and_then (getitem viewbox 0) (\<lambda>v0.
          and_then (truediv w (v2 - v0)) (\<lambda>sx.
          and_then (getitem viewbox 3) (\<lambda>v3.
          and_then (getitem viewbox 1) (\<lambda>v1.
          and_then (truediv h (v3 - v1)) (\<lambda>sy.
          and_then (getitem viewbox 0) (\<lambda>m0.
          and_then (getitem viewbox 1) (\<lambda>m1.
          Inr \<lparr>scale_x = sx, scale_y = sy, offset_x = - m0, offset_y = - m1\<rparr>)))))))))))))
      | None \<Rightarrow> Inr \<lparr>scale_x = 1, scale_y = 1, offset_x = 0, offset_y = 0\<rparr>)"

subsection \<open>Lines 65 to 74: linearisation of one path element\<close>

text \<open>
  The two divisions of the linearisation are float divisions, and a rounded quotient can fall
  on the other side of an integer than the exact one. Both are parameters.
  \<^item> \<open>fdiv len quantization\<close> is \<^verbatim>\<open>elem.length() / quantization\<close> of line 69 as far as
    \<^verbatim>\<open>math.ceil\<close> accepts it: the finite float quotient, or the exception that the division
    raises (\<^verbatim>\<open>ZeroDivisionError\<close>, for a divisor zero under a Python float) or that
    \<^verbatim>\<open>math.ceil\<close> raises on a quotient that is infinite or not a number
    (\<^verbatim>\<open>OverflowError\<close>, \<^verbatim>\<open>ValueError\<close>). Nothing is assumed about it.
  \<^item> \<open>idiv a b\<close> is \<^verbatim>\<open>(i + 1) / step\<close> of line 73, a division of Python integers. The loop
    runs with \<open>0 < a < b\<close> only, where that division returns a float and raises nothing.
\<close>

definition curve_step :: "(real \<Rightarrow> real \<Rightarrow> error + real) \<Rightarrow> real \<Rightarrow> real \<Rightarrow> error + int" where
  "curve_step fdiv quantization len = and_then (fdiv len quantization) (\<lambda>r. Inr \<lceil>r\<rceil>)"

text \<open>The loop of lines 72 and 73, over the values \<open>i\<close> of \<^verbatim>\<open>range(step-1)\<close>.\<close>

fun fill_points ::
    "(int \<Rightarrow> int \<Rightarrow> real) \<Rightarrow> (real \<Rightarrow> complex) \<Rightarrow> int \<Rightarrow> int list \<Rightarrow> complex list
     \<Rightarrow> error + complex list" where
  "fill_points idiv point step [] cs = Inr cs"
| "fill_points idiv point step (i # rest) cs =
     and_then (setitem cs (i + 1) (point (idiv (i + 1) step))) (\<lambda>cs'.
     fill_points idiv point step rest cs')"

definition linearize ::
    "(real \<Rightarrow> real \<Rightarrow> error + real) \<Rightarrow> (int \<Rightarrow> int \<Rightarrow> real) \<Rightarrow> (nat \<Rightarrow> complex) \<Rightarrow> real
     \<Rightarrow> segment \<Rightarrow> error + complex list" where
  "linearize fdiv idiv junk quantization elem =
     (case elem of
        Line s e \<Rightarrow> Inr [s, e]
      | Curve s e len point \<Rightarrow>
          and_then (curve_step fdiv quantization len) (\<lambda>step.
          and_then (np_empty junk (step + 1)) (\<lambda>c0.
          and_then (setitem c0 0 s) (\<lambda>c1.
          and_then (fill_points idiv point step [0..step - 1 - 1] c1) (\<lambda>c2.
          setitem c2 (- 1) e)))))"

subsection \<open>Lines 76 to 82: from complex numbers to a line string of scaled coordinates\<close>

definition to_coords :: "complex list \<Rightarrow> (real \<times> real) list" where
  "to_coords cs = map (\<lambda>z. (Re z, Im z)) cs"

definition final_coords :: "transform \<Rightarrow> (real \<times> real) list \<Rightarrow> (real \<times> real) list" where
  "final_coords tr ps =
     map (\<lambda>p. (scale_x tr * (fst p + offset_x tr), scale_y tr * (snd p + offset_y tr))) ps"

text \<open>
  The constructor \<^verbatim>\<open>LineString\<close> of shapely, called on line 82, raises \<^verbatim>\<open>ValueError\<close> for
  an array of fewer than two coordinate pairs.
\<close>

definition line_string :: "(real \<times> real) list \<Rightarrow> error + LineString" where
  "line_string ps = (if length ps < 2 then Inl ValueError else Inr (LineString ps))"

subsection \<open>Lines 62 to 84: the loops over the paths and their elements\<close>

fun path_loop ::
    "(real \<Rightarrow> real \<Rightarrow> error + real) \<Rightarrow> (int \<Rightarrow> int \<Rightarrow> real) \<Rightarrow> (nat \<Rightarrow> complex) \<Rightarrow> real
     \<Rightarrow> transform \<Rightarrow> segment list \<Rightarrow> LineString list \<Rightarrow> error + LineString list" where
  "path_loop fdiv idiv junk quantization tr [] ls_array = Inr ls_array"
| "path_loop fdiv idiv junk quantization tr (elem # elems) ls_array =
     and_then (linearize fdiv idiv junk quantization elem) (\<lambda>cs.
     and_then (line_string (final_coords tr (to_coords cs))) (\<lambda>ls.
     path_loop fdiv idiv junk quantization tr elems (ls_array @ [ls])))"

fun results_loop ::
    "(real \<Rightarrow> real \<Rightarrow> error + real) \<Rightarrow> (int \<Rightarrow> int \<Rightarrow> real) \<Rightarrow> (nat \<Rightarrow> complex) \<Rightarrow> real
     \<Rightarrow> transform \<Rightarrow> segment list list \<Rightarrow> LineString list \<Rightarrow> error + LineString list" where
  "results_loop fdiv idiv junk quantization tr [] ls_array = Inr ls_array"
| "results_loop fdiv idiv junk quantization tr (path # paths) ls_array =
     and_then (path_loop fdiv idiv junk quantization tr path ls_array) (\<lambda>ls_array'.
     results_loop fdiv idiv junk quantization tr paths ls_array')"

definition read ::
    "(string \<Rightarrow> error + real) \<Rightarrow> (string \<Rightarrow> error + real) \<Rightarrow> (real \<Rightarrow> real \<Rightarrow> error + real)
     \<Rightarrow> (int \<Rightarrow> int \<Rightarrow> real) \<Rightarrow> (nat \<Rightarrow> complex) \<Rightarrow> document \<Rightarrow> real
     \<Rightarrow> error + MultiLineString" where
  "read convert float fdiv idiv junk doc quantization =
     and_then (viewbox_transform convert float (root_attrib doc)) (\<lambda>tr.
     and_then (results_loop fdiv idiv junk quantization tr (results doc) []) (\<lambda>ls_array.
     Inr (MultiLineString ls_array)))"

subsection \<open>Concrete collaborators for closed examples\<close>

text \<open>
  \<open>float_digits\<close> reads a string of ASCII digits as the number it writes in base ten, which
  is what Python's \<^verbatim>\<open>float\<close> returns for it, and raises \<^verbatim>\<open>ValueError\<close> on any other string.
  The attributes of the examples hold digit strings and the string \<^verbatim>\<open>abc\<close>, which is no
  number and no length; there it is taken for both parameters, \<^verbatim>\<open>float\<close> and \<^verbatim>\<open>convert\<close>.
\<close>

definition isdigit :: "char \<Rightarrow> bool" where
  "isdigit c = (48 \<le> (of_char c :: nat) \<and> (of_char c :: nat) \<le> 57)"

definition float_digits :: "string \<Rightarrow> error + real" where
  "float_digits s =
     (if s \<noteq> [] \<and> list_all isdigit s
      then Inr (real (foldl (\<lambda>a c. 10 * a + (of_char c - 48)) 0 s))
      else Inl ValueError)"

text \<open>
  \<open>float_div\<close> is the division of Python floats where the exact quotient is a float, which
  is then the result, and where it is nearer to zero than half the least positive float
  \<open>2 ^ - 1074\<close>, which rounds it to zero. \<open>exact_idiv\<close> is the division of Python integers
  where the exact quotient is a float. The numbers of the examples are of these kinds.
\<close>

definition float_div :: "real \<Rightarrow> real \<Rightarrow> error + real" where
  "float_div a b =
     (if b = 0 then Inl ZeroDivisionError
      else if \<bar>a / b\<bar> < 1 / 2 ^ 1075 then Inr 0
      else Inr (a / b))"

definition exact_idiv :: "int \<Rightarrow> int \<Rightarrow> real" where
  "exact_idiv a b = real_of_int a / real_of_int b"

definition no_junk :: "nat \<Rightarrow> complex" where
  "no_junk i = 0"


definition along_axis :: "real \<Rightarrow> complex" where
  "along_axis t = of_real (4 * t)"

definition tiny :: real where
  "tiny = 1 / 2 ^ 60"

definition huge :: real where
  "huge = 2 ^ 1020"


text \<open>Attributes of a root element, and whole documents.\<close>

definition offset_attrib :: "string \<rightharpoonup> string" where
  "offset_attrib = [''viewBox'' \<mapsto> ''10 10 100 100'', ''width'' \<mapsto> ''100'', ''height'' \<mapsto> ''100'']"

definition square_attrib :: "string \<rightharpoonup> string" where
  "square_attrib = [''viewBox'' \<mapsto> ''10 10 10 10'', ''width'' \<mapsto> ''100'', ''height'' \<mapsto> ''100'']"

definition flat_attrib :: "string \<rightharpoonup> string" where
  "flat_attrib = [''viewBox'' \<mapsto> ''10 10 0 0'', ''width'' \<mapsto> ''100'', ''height'' \<mapsto> ''100'']"

definition no_width_doc :: document where
  "no_width_doc =
     \<lparr>root_attrib = [''viewBox'' \<mapsto> ''0 0 100 100'', ''height'' \<mapsto> ''100''],
      results = [[Line 0 1]]\<rparr>"

definition no_height_doc :: document where
  "no_height_doc =
     \<lparr>root_attrib = [''viewBox'' \<mapsto> ''0 0 100 100'', ''width'' \<mapsto> ''100''],
      results = [[Line 0 1]]\<rparr>"

definition bad_width_doc :: document where
  "bad_width_doc =
     \<lparr>root_attrib = [''viewBox'' \<mapsto> ''0 0 100 100'', ''width'' \<mapsto> ''abc''],
      results = [[Line 0 1]]\<rparr>"

definition bare_viewbox_doc :: document where
  "bare_viewbox_doc = \<lparr>root_attrib = [''viewBox'' \<mapsto> ''0 0 100 100''], results = []\<rparr>"

definition plain_doc :: document where
  "plain_doc = \<lparr>root_attrib = Map.empty, results = [[Line 0 1], [Curve 0 4 4 along_axis]]\<rparr>"

definition empty_doc :: document where
  "empty_doc = \<lparr>root_attrib = Map.empty, results = [[]]\<rparr>"

subsection \<open>What the linearisation leaves in the array\<close>

text \<open>
  For a step of at least one, lines 70 to 74 write the start, then the curve at the float
  fractions \<open>1 / step\<close> to \<open>(step - 1) / step\<close>, then the end. For a step of zero the array has
  one cell, which line 71 sets to the start and line 74 to the end.
\<close>

definition curve_points ::
    "(int \<Rightarrow> int \<Rightarrow> real) \<Rightarrow> complex \<Rightarrow> complex \<Rightarrow> (real \<Rightarrow> complex) \<Rightarrow> int \<Rightarrow> complex list" where
  "curve_points idiv s e point step =
     (if step = 0 then [e]
      else s # map (\<lambda>i. point (idiv (int i) step)) [1..<nat step] @ [e])"

text \<open>Lines 65 to 82 for one element: its linearisation, scaled and made a line string.\<close>

definition polyline ::
    "(real \<Rightarrow> real \<Rightarrow> error + real) \<Rightarrow> (int \<Rightarrow> int \<Rightarrow> real) \<Rightarrow> (nat \<Rightarrow> complex) \<Rightarrow> real
     \<Rightarrow> transform \<Rightarrow> segment \<Rightarrow> error + LineString" where
  "polyline fdiv idiv junk quantization tr elem =
     and_then (linearize fdiv idiv junk quantization elem) (\<lambda>cs.
     line_string (final_coords tr (to_coords cs)))"

text \<open>An element whose step, if it is curved, is computed and comes from a positive quotient.\<close>

definition positive_quotient :: "(real \<Rightarrow> real \<Rightarrow> error + real) \<Rightarrow> real \<Rightarrow> segment \<Rightarrow> bool" where
  "positive_quotient fdiv quantization elem =
     (case elem of
        Line s e \<Rightarrow> True
      | Curve s e len point \<Rightarrow> (case fdiv len quantization of Inl err \<Rightarrow> False | Inr r \<Rightarrow> 0 < r))"

section \<open>Properties\<close>

subsection \<open>The linearisation in closed form\<close>

lemma and_then_Inr [simp]: "and_then (Inr x) f = f x"
  by (simp add: and_then_def)

lemma and_then_Inl [simp]: "and_then (Inl e) f = Inl e"
  by (simp add: and_then_def)

lemma fill_points_nth:
  assumes "\<forall>i\<in>set idxs. 0 \<le> i \<and> i + 1 < int (length cs)"
  shows "\<exists>r. fill_points idiv pt step idxs cs = Inr r \<and> length r = length cs \<and>
           (\<forall>k<length cs. r ! k =
              (if int k - 1 \<in> set idxs then pt (idiv (int k) step) else cs ! k))"
  using assms
proof (induction idxs arbitrary: cs)
  case Nil
  then show ?case by simp
next
  case (Cons i idxs)
  define v where "v = pt (idiv (i + 1) step)"
  define cs' where "cs' = cs[nat (i + 1) := v]"
  have i: "0 \<le> i" "i + 1 < int (length cs)"
    using Cons.prems by simp_all
  have si: "setitem cs (i + 1) v = Inr cs'"
    using i by (simp add: setitem_def norm_index_def cs'_def)
  have step: "fill_points idiv pt step (i # idxs) cs = fill_points idiv pt step idxs cs'"
    by (simp only: fill_points.simps si [unfolded v_def] and_then_Inr)
  have len: "length cs' = length cs"
    by (simp add: cs'_def)
  have "\<forall>j\<in>set idxs. 0 \<le> j \<and> j + 1 < int (length cs')"
    using Cons.prems len by simp
  from Cons.IH [OF this]
  obtain r where r: "fill_points idiv pt step idxs cs' = Inr r" "length r = length cs'"
    "\<forall>k<length cs'. r ! k = (if int k - 1 \<in> set idxs then pt (idiv (int k) step) else cs' ! k)"
    by blast
  have "r ! k = (if int k - 1 \<in> set (i # idxs) then pt (idiv (int k) step) else cs ! k)"
    if k: "k < length cs" for k
  proof (cases "int k - 1 = i")
    case True
    then have kk: "k = nat (i + 1)" "int k = i + 1" by simp_all
    show ?thesis
      using r(3) k len True kk by (simp add: cs'_def v_def)
  next
    case False
    then have "k \<noteq> nat (i + 1)" using i by auto
    then show ?thesis
      using r(3) k len False by (simp add: cs'_def)
  qed
  then show ?case
    using r(1,2) step len by simp
qed

lemma linearize_curve_fault:
  "fdiv len q = Inl err \<Longrightarrow> linearize fdiv idiv junk q (Curve s e len pt) = Inl err"
  by (simp add: linearize_def curve_step_def)

lemma linearize_curve_closed:
  assumes "fdiv len q = Inr r" and "step = \<lceil>r\<rceil>"
  shows "linearize fdiv idiv junk q (Curve s e len pt) =
     (if step + 1 < 0 then Inl ValueError
      else if step + 1 = 0 then Inl IndexError
      else Inr (curve_points idiv s e pt step))"
proof -
  have cs: "curve_step fdiv q len = Inr step"
    using assms by (simp add: curve_step_def)
  consider (neg) "step + 1 < 0" | (m1) "step + 1 = 0" | (z) "step = 0" | (pos) "1 \<le> step"
    by linarith
  then show ?thesis
  proof cases
    case neg
    then show ?thesis
      by (simp add: linearize_def cs np_empty_def)
  next
    case m1
    then show ?thesis
      by (simp add: linearize_def cs np_empty_def setitem_def norm_index_def)
  next
    case z
    then show ?thesis
      by (simp add: linearize_def cs np_empty_def setitem_def norm_index_def curve_points_def)
  next
    case pos
    define n where "n = nat step"
    have n: "1 \<le> n" "step = int n" using pos by (simp_all add: n_def)
    define c0 where "c0 = map junk [0..<nat (step + 1)]"
    define c1 where "c1 = c0[0 := s]"
    have l0: "length c0 = n + 1" using n by (simp add: c0_def nat_add_distrib)
    have l1: "length c1 = n + 1" by (simp add: c1_def l0)
    have e0: "np_empty junk (step + 1) = Inr c0"
      using pos by (simp add: np_empty_def c0_def)
    have s0: "setitem c0 0 s = Inr c1"
      by (simp add: setitem_def norm_index_def c1_def l0)
    have "\<forall>i\<in>set [0..step - 1 - 1]. 0 \<le> i \<and> i + 1 < int (length c1)"
      using n by (simp add: l1)
    from fill_points_nth [of "[0..step - 1 - 1]" c1 idiv pt step, OF this]
    obtain c2 where c2: "fill_points idiv pt step [0..step - 1 - 1] c1 = Inr c2"
      "length c2 = length c1"
      "\<forall>k<length c1. c2 ! k =
         (if int k - 1 \<in> set [0..step - 1 - 1] then pt (idiv (int k) step) else c1 ! k)"
      by auto
    have s2: "setitem c2 (- 1) e = Inr (c2[n := e])"
      using c2(2) l1 by (simp add: setitem_def norm_index_def)
    have lin: "linearize fdiv idiv junk q (Curve s e len pt) = Inr (c2[n := e])"
      by (simp only: linearize_def segment.case cs e0 s0 c2(1) s2 and_then_Inr)
    have "c2[n := e] = curve_points idiv s e pt step"
    proof (rule nth_equalityI)
      show "length (c2[n := e]) = length (curve_points idiv s e pt step)"
        using n c2(2) l1 by (simp add: curve_points_def)
    next
      fix k assume "k < length (c2[n := e])"
      then have k: "k < n + 1" using c2(2) l1 by simp
      consider "k = 0" | "1 \<le> k" "k < n" | "k = n" using k by linarith
      then show "c2[n := e] ! k = curve_points idiv s e pt step ! k"
      proof cases
        case 1
        then show ?thesis
          using n c2(2,3) l1 by (simp add: curve_points_def c1_def l0)
      next
        case 2
        then have "int k - 1 \<in> set [0..step - 1 - 1]" using n by simp
        then have "c2 ! k = pt (idiv (int k) step)"
          using c2(3) l1 2 by simp
        moreover have "curve_points idiv s e pt step ! k = pt (idiv (int k) step)"
          using 2 n by (auto simp add: curve_points_def nth_append nth_Cons')
        ultimately show ?thesis using 2 by simp
      next
        case 3
        then show ?thesis
          using n c2(2) l1 by (simp add: curve_points_def nth_append nth_Cons')
      qed
    qed
    with lin pos show ?thesis by simp
  qed
qed

lemma linearize_curve_ok:
  assumes "fdiv len q = Inr r" and "0 \<le> \<lceil>r\<rceil>"
  shows "linearize fdiv idiv junk q (Curve s e len pt) = Inr (curve_points idiv s e pt \<lceil>r\<rceil>)"
proof -
  define step where "step = \<lceil>r\<rceil>"
  have st: "0 \<le> step" using assms(2) by (simp only: step_def)
  have "linearize fdiv idiv junk q (Curve s e len pt) = Inr (curve_points idiv s e pt step)"
    using linearize_curve_closed [of fdiv len q r step idiv junk s e pt] assms(1) step_def st
    by simp
  then show ?thesis by (simp only: step_def)
qed

lemma length_curve_points:
  "0 \<le> step \<Longrightarrow> length (curve_points idiv s e pt step) = nat step + 1"
  by (simp add: curve_points_def)

lemma curve_points_two:
  assumes "1 \<le> step"
  shows "2 \<le> length (curve_points idiv s e pt step)"
proof -
  have "0 \<le> step" using assms by linarith
  from length_curve_points [OF this]
  have "length (curve_points idiv s e pt step) = nat step + 1" .
  moreover have "1 \<le> nat step" using assms by linarith
  ultimately show ?thesis by linarith
qed

lemma ceiling_pos:
  fixes r :: real
  assumes "0 < r"
  shows "1 \<le> \<lceil>r\<rceil>"
  using assms by linarith


text \<open>Nothing of the uninitialised array survives, on any path through the element.\<close>

lemma linearize_junk:
  "linearize fdiv idiv junk q elem = linearize fdiv idiv junk' q elem"
proof (cases elem)
  case (Line s e)
  then show ?thesis by (simp add: linearize_def)
next
  case (Curve s e len pt)
  show ?thesis
  proof (cases "fdiv len q")
    case (Inl err)
    then show ?thesis using Curve by (simp add: linearize_curve_fault)
  next
    case (Inr r)
    show ?thesis
      using Curve linearize_curve_closed [of fdiv len q r "\<lceil>r\<rceil>" idiv junk s e pt]
        linearize_curve_closed [of fdiv len q r "\<lceil>r\<rceil>" idiv junk' s e pt] Inr
      by simp
  qed
qed

subsection \<open>The loops as one comprehension\<close>

lemma comprehension_append:
  "comprehension f (xs @ ys) =
     and_then (comprehension f xs) (\<lambda>as. and_then (comprehension f ys) (\<lambda>bs. Inr (as @ bs)))"
proof (induction xs)
  case Nil
  show ?case by (cases "comprehension f ys") simp_all
next
  case (Cons x xs)
  show ?case
  proof (cases "f x")
    case (Inl e)
    then show ?thesis by simp
  next
    case (Inr y)
    show ?thesis
    proof (cases "comprehension f xs")
      case (Inl e)
      then show ?thesis using Inr Cons.IH by simp
    next
      case xs: (Inr as)
      show ?thesis
        using Inr xs Cons.IH by (cases "comprehension f ys") simp_all
    qed
  qed
qed

lemma comprehension_Inr:
  "comprehension f xs = Inr ys \<Longrightarrow>
     length ys = length xs \<and> (\<forall>k<length xs. f (xs ! k) = Inr (ys ! k))"
proof (induction xs arbitrary: ys)
  case Nil
  then show ?case by simp
next
  case (Cons x xs)
  from Cons.prems obtain y where y: "f x = Inr y"
    by (cases "f x") simp_all
  from Cons.prems y obtain zs where zs: "comprehension f xs = Inr zs"
    by (cases "comprehension f xs") simp_all
  from Cons.prems y zs have ys: "ys = y # zs" by simp
  from Cons.IH [OF zs] have ih: "length zs = length xs" "\<forall>k<length xs. f (xs ! k) = Inr (zs ! k)"
    by simp_all
  show ?case
    using y ys ih by (simp add: nth_Cons')
qed

lemma comprehension_all_Inr:
  "\<forall>x\<in>set xs. \<exists>y. f x = Inr y \<Longrightarrow> \<exists>ys. comprehension f xs = Inr ys"
proof (induction xs)
  case Nil
  show ?case by simp
next
  case (Cons x xs)
  then obtain y ys where "f x = Inr y" "comprehension f xs = Inr ys" by auto
  then show ?case by simp
qed

lemma path_loop_eq:
  "path_loop fdiv idiv junk q tr elems acc =
     and_then (comprehension (polyline fdiv idiv junk q tr) elems) (\<lambda>lss. Inr (acc @ lss))"
proof (induction elems arbitrary: acc)
  case Nil
  show ?case by simp
next
  case (Cons elem elems)
  show ?case
  proof (cases "polyline fdiv idiv junk q tr elem")
    case (Inl err)
    then show ?thesis
      by (cases "linearize fdiv idiv junk q elem") (simp_all add: polyline_def)
  next
    case (Inr ls)
    then obtain cs where cs: "linearize fdiv idiv junk q elem = Inr cs"
      "line_string (final_coords tr (to_coords cs)) = Inr ls"
      by (cases "linearize fdiv idiv junk q elem") (simp_all add: polyline_def)
    show ?thesis
      using Inr cs Cons.IH
      by (cases "comprehension (polyline fdiv idiv junk q tr) elems") simp_all
  qed
qed

lemma results_loop_eq:
  "results_loop fdiv idiv junk q tr paths acc =
     and_then (comprehension (polyline fdiv idiv junk q tr) (concat paths))
       (\<lambda>lss. Inr (acc @ lss))"
proof (induction paths arbitrary: acc)
  case Nil
  show ?case by simp
next
  case (Cons path paths)
  show ?case
  proof (cases "comprehension (polyline fdiv idiv junk q tr) path")
    case (Inl err)
    then show ?thesis by (simp add: path_loop_eq comprehension_append)
  next
    case (Inr as)
    then show ?thesis
      using Cons.IH
      by (cases "comprehension (polyline fdiv idiv junk q tr) (concat paths)")
        (simp_all add: path_loop_eq comprehension_append)
  qed
qed

lemma read_eq:
  "read convert float fdiv idiv junk doc q =
     and_then (viewbox_transform convert float (root_attrib doc)) (\<lambda>tr.
     and_then (comprehension (polyline fdiv idiv junk q tr) (concat (results doc))) (\<lambda>lss.
     Inr (MultiLineString lss)))"
proof (cases "viewbox_transform convert float (root_attrib doc)")
  case (Inl err)
  then show ?thesis by (simp add: read_def)
next
  case (Inr tr)
  then show ?thesis
    by (cases "comprehension (polyline fdiv idiv junk q tr) (concat (results doc))")
      (simp_all add: read_def results_loop_eq)
qed

lemma polyline_Inr:
  assumes "polyline fdiv idiv junk q tr elem = Inr ls"
  shows "\<exists>cs. linearize fdiv idiv junk q elem = Inr cs \<and> 2 \<le> length cs \<and>
              ls = LineString (final_coords tr (to_coords cs))"
proof -
  from assms obtain cs where cs: "linearize fdiv idiv junk q elem = Inr cs"
    "line_string (final_coords tr (to_coords cs)) = Inr ls"
    by (cases "linearize fdiv idiv junk q elem") (simp_all add: polyline_def)
  from cs(2) have "2 \<le> length cs \<and> ls = LineString (final_coords tr (to_coords cs))"
    by (auto simp add: line_string_def final_coords_def to_coords_def split: if_splits)
  with cs(1) show ?thesis by blast
qed

subsection \<open>When the extraction returns\<close>

lemma polyline_returns:
  assumes "positive_quotient fdiv q elem"
  shows "\<exists>ls. polyline fdiv idiv junk q tr elem = Inr ls"
proof (cases elem)
  case (Line s e)
  then show ?thesis
    by (simp add: polyline_def linearize_def line_string_def final_coords_def to_coords_def)
next
  case (Curve s e len pt)
  with assms obtain r where r: "fdiv len q = Inr r" "0 < r"
    by (cases "fdiv len q") (simp_all add: positive_quotient_def)
  from r(2) have st: "1 \<le> \<lceil>r\<rceil>" by (rule ceiling_pos)
  then have st0: "0 \<le> \<lceil>r\<rceil>" by linarith
  have lin: "linearize fdiv idiv junk q elem = Inr (curve_points idiv s e pt \<lceil>r\<rceil>)"
    unfolding Curve using r(1) st0 by (rule linearize_curve_ok)
  from st have "2 \<le> length (curve_points idiv s e pt \<lceil>r\<rceil>)"
    by (rule curve_points_two)
  then have "\<not> length (final_coords tr (to_coords (curve_points idiv s e pt \<lceil>r\<rceil>))) < 2"
    by (simp only: final_coords_def to_coords_def length_map)
  then show ?thesis
    by (simp only: polyline_def lin and_then_Inr line_string_def if_False) blast
qed

lemma read_returns:
  assumes "viewbox_transform convert float (root_attrib doc) = Inr tr"
    and "\<forall>elem\<in>set (concat (results doc)). positive_quotient fdiv q elem"
  shows "\<exists>out. read convert float fdiv idiv junk doc q = Inr out"
proof -
  have "\<forall>elem\<in>set (concat (results doc)). \<exists>ls. polyline fdiv idiv junk q tr elem = Inr ls"
    using assms(2) polyline_returns by blast
  from comprehension_all_Inr [OF this]
  obtain lss where "comprehension (polyline fdiv idiv junk q tr) (concat (results doc)) = Inr lss"
    by blast
  then show ?thesis
    using assms(1) by (simp add: read_eq)
qed

subsection \<open>The transform on a view box of four numbers\<close>

lemma viewbox_transform_none:
  "attrib ''viewBox'' = None \<Longrightarrow>
     viewbox_transform convert float attrib =
       Inr \<lparr>scale_x = 1, scale_y = 1, offset_x = 0, offset_y = 0\<rparr>"
  by (simp add: viewbox_transform_def)

lemma viewbox_transform_four:
  assumes "attrib ''viewBox'' = Some vb"
    and "attrib ''width'' = Some ws" and "convert ws = Inr w"
    and "attrib ''height'' = Some hs" and "convert hs = Inr h"
    and "comprehension float (str_split vb) = Inr [a, b, c, d]"
  shows "viewbox_transform convert float attrib =
           (if c - a = 0 \<or> d - b = 0 then Inl ZeroDivisionError
            else Inr \<lparr>scale_x = w / (c - a), scale_y = h / (d - b),
                      offset_x = - a, offset_y = - b\<rparr>)"
  using assms
  by (simp add: viewbox_transform_def dict_getitem_def getitem_def norm_index_def truediv_def)

subsection \<open>The collaborators and the linearizer on the examples\<close>

lemma float_digits_examples:
  "float_digits ''0'' = Inr 0" "float_digits ''10'' = Inr 10" "float_digits ''100'' = Inr 100"
  "float_digits ''abc'' = Inl ValueError"
  by (simp_all add: float_digits_def isdigit_def)

lemma str_split_examples:
  "str_split ''10 10 100 100'' = [''10'', ''10'', ''100'', ''100'']"
  "str_split ''10 10 10 10'' = [''10'', ''10'', ''10'', ''10'']"
  "str_split ''10 10 0 0'' = [''10'', ''10'', ''0'', ''0'']"
  "str_split ''0 0 100 100'' = [''0'', ''0'', ''100'', ''100'']"
  by (simp_all add: str_split_def isspace_def)

lemma float_div_examples:
  "float_div 0 1 = Inr 0" "float_div 4 1 = Inr 4" "float_div 4 2 = Inr 2"
  "float_div 4 8 = Inr (1 / 2)" "float_div tiny huge = Inr 0"
  by (simp_all add: float_div_def tiny_def huge_def)

lemma linearize_examples:
  "linearize float_div exact_idiv no_junk 1 (Line 0 1) = Inr [0, 1]"
  "linearize float_div exact_idiv no_junk 1 (Curve 0 4 4 along_axis) = Inr [0, 1, 2, 3, 4]"
  by (simp_all add: linearize_def curve_step_def float_div_examples np_empty_def
      setitem_def norm_index_def upto.simps along_axis_def no_junk_def exact_idiv_def
      upt_rec numeral_eq_Suc)

lemma polyline_examples:
  "polyline float_div exact_idiv no_junk 1
     \<lparr>scale_x = 1, scale_y = 1, offset_x = 0, offset_y = 0\<rparr> (Line 0 1) =
       Inr (LineString [(0, 0), (1, 0)])"
  "polyline float_div exact_idiv no_junk 1
     \<lparr>scale_x = 1, scale_y = 1, offset_x = 0, offset_y = 0\<rparr> (Curve 0 4 4 along_axis) =
       Inr (LineString [(0, 0), (1, 0), (2, 0), (3, 0), (4, 0)])"
  by (simp_all add: polyline_def linearize_examples line_string_def final_coords_def
      to_coords_def)

section \<open>The claims\<close>

subsection \<open>The transform of the root element\<close>

text \<open>
  Claim C1 asks for \<open>scale_x = w / vbWidth\<close> and \<open>scale_y = h / vbHeight\<close> whatever the
  origin of the view box is. Lines 52 and 53 divide by the third number minus the first and
  by the fourth minus the second. On a root with \<^verbatim>\<open>viewBox="10 10 100 100"\<close>, \<^verbatim>\<open>width="100"\<close>
  and \<^verbatim>\<open>height="100"\<close> the scales are \<open>100 / 90\<close>, where the claim has \<open>100 / 100\<close>.
\<close>

theorem viewbox_scale_at_nonzero_origin:
  "viewbox_transform float_digits float_digits offset_attrib =
     Inr \<lparr>scale_x = 10 / 9, scale_y = 10 / 9, offset_x = - 10, offset_y = - 10\<rparr>"
  by (simp add: viewbox_transform_def offset_attrib_def str_split_examples float_digits_examples
      dict_getitem_def getitem_def norm_index_def truediv_def)

text \<open>
  Claim C2 ties the division fault to a view box of width or height zero. With the divisors
  of lines 52 and 53 the fault comes when the third number equals the first, or the fourth
  the second: \<^verbatim>\<open>viewBox="10 10 10 10"\<close> faults though its width and height are ten, and
  \<^verbatim>\<open>viewBox="10 10 0 0"\<close> gives negative scales and no fault.
\<close>

theorem viewbox_fault_at_size_equal_to_origin:
  "viewbox_transform float_digits float_digits square_attrib = Inl ZeroDivisionError \<and>
   viewbox_transform float_digits float_digits flat_attrib =
     Inr \<lparr>scale_x = - 10, scale_y = - 10, offset_x = - 10, offset_y = - 10\<rparr>"
  by (simp add: viewbox_transform_def square_attrib_def flat_attrib_def str_split_examples
      float_digits_examples dict_getitem_def getitem_def norm_index_def truediv_def)

text \<open>
  Claim C7. A root element without \<^verbatim>\<open>viewBox\<close> gives the identity transform, and \<open>read\<close>
  makes the line string of each element from the real and imaginary parts of its linearised
  points, unchanged. Where the linearisation of an element or its line string raises, so
  does \<open>read\<close>.
\<close>

theorem no_viewbox_identity:
  assumes "root_attrib doc ''viewBox'' = None"
  shows "viewbox_transform convert float (root_attrib doc) =
           Inr \<lparr>scale_x = 1, scale_y = 1, offset_x = 0, offset_y = 0\<rparr> \<and>
         read convert float fdiv idiv junk doc q =
           and_then (comprehension (\<lambda>elem.
               and_then (linearize fdiv idiv junk q elem) (\<lambda>cs.
               line_string (map (\<lambda>z. (Re z, Im z)) cs)))
             (concat (results doc))) (\<lambda>lss.
           Inr (MultiLineString lss))"
  using viewbox_transform_none [of "root_attrib doc" convert float] assms
  by (simp add: read_eq polyline_def [abs_def] final_coords_def to_coords_def comp_def)

theorem no_viewbox_identity_witness:
  "root_attrib plain_doc ''viewBox'' = None \<and>
   read float_digits float_digits float_div exact_idiv no_junk plain_doc 1 =
     Inr (MultiLineString [LineString [(0, 0), (1, 0)],
                           LineString [(0, 0), (1, 0), (2, 0), (3, 0), (4, 0)]])"
proof -
  have h: "root_attrib plain_doc ''viewBox'' = None"
    by (simp add: plain_doc_def)
  have r: "results plain_doc = [[Line 0 1], [Curve 0 4 4 along_axis]]"
    by (simp add: plain_doc_def)
  show ?thesis
    using h no_viewbox_identity [OF h, of float_digits float_digits float_div exact_idiv no_junk 1]
    by (simp add: r linearize_examples line_string_def)
qed

text \<open>
  Claim C10, as amended. Let the root element have a \<^verbatim>\<open>viewBox\<close> and lack \<^verbatim>\<open>width\<close> or
  \<^verbatim>\<open>height\<close>. Then \<open>read\<close> returns no collection and nothing stands in for the missing
  dimension. It ends with the \<^verbatim>\<open>KeyError\<close> of \<^verbatim>\<open>width\<close> when the width is missing. When the
  width is there, it ends with the exception of \<^verbatim>\<open>convert\<close> if \<^verbatim>\<open>convert\<close> raises on the
  width, and with the \<^verbatim>\<open>KeyError\<close> of \<^verbatim>\<open>height\<close> otherwise.
\<close>

theorem viewbox_without_dimension_aborts:
  assumes "root_attrib doc ''viewBox'' = Some vb"
    and "root_attrib doc ''width'' = None \<or> root_attrib doc ''height'' = None"
  shows "read convert float fdiv idiv junk doc q =
           (case root_attrib doc ''width'' of
              None \<Rightarrow> Inl (KeyError ''width'')
            | Some ws \<Rightarrow>
                (case convert ws of
                   Inl err \<Rightarrow> Inl err
                 | Inr w \<Rightarrow> Inl (KeyError ''height'')))"
proof (cases "root_attrib doc ''width''")
  case None
  then show ?thesis
    using assms(1) by (simp add: read_def viewbox_transform_def dict_getitem_def)
next
  case (Some ws)
  with assms(2) have h: "root_attrib doc ''height'' = None" by simp
  show ?thesis
    using assms(1) Some h
    by (cases "convert ws") (simp_all add: read_def viewbox_transform_def dict_getitem_def)
qed

theorem viewbox_without_dimension_aborts_witness:
  "read float_digits float_digits float_div exact_idiv no_junk no_height_doc 1 =
     Inl (KeyError ''height'') \<and>
   read float_digits float_digits float_div exact_idiv no_junk no_width_doc 1 =
     Inl (KeyError ''width'')"
proof -
  have a: "read float_digits float_digits float_div exact_idiv no_junk no_height_doc 1 =
             Inl (KeyError ''height'')"
    using viewbox_without_dimension_aborts [of no_height_doc "''0 0 100 100''" float_digits
        float_digits float_div exact_idiv no_junk 1]
    by (simp add: no_height_doc_def float_digits_examples)
  have b: "read float_digits float_digits float_div exact_idiv no_junk no_width_doc 1 =
             Inl (KeyError ''width'')"
    using viewbox_without_dimension_aborts [of no_width_doc "''0 0 100 100''" float_digits
        float_digits float_div exact_idiv no_junk 1]
    by (simp add: no_width_doc_def)
  from a b show ?thesis by simp
qed

text \<open>
  Claim C10 as stated has an attribute-lookup error whenever the width or the height is
  missing. With \<^verbatim>\<open>width="abc"\<close> and no height, line 47 calls \<^verbatim>\<open>convert\<close> on the width before
  line 48 looks the height up, and \<open>read\<close> ends with the \<^verbatim>\<open>ValueError\<close> of \<^verbatim>\<open>convert\<close>.
\<close>

theorem unconvertible_width_without_height:
  "read float_digits float_digits float_div exact_idiv no_junk bad_width_doc 1 = Inl ValueError"
  by (simp add: read_def bad_width_doc_def viewbox_transform_def dict_getitem_def
      float_digits_examples)

subsection \<open>The linearizer\<close>









subsection \<open>The whole extraction\<close>

text \<open>
  Claim C6. \<open>read\<close> is the transform of the root, then for every element of every path in
  order its linearisation, the map \<open>(x, y) \<mapsto> (scale_x * (x + offset_x), scale_y * (y +
  offset_y))\<close> over every linearised point, and the line string of the mapped points.
\<close>

theorem read_scales_every_point:
  "read convert float fdiv idiv junk doc q =
     and_then (viewbox_transform convert float (root_attrib doc)) (\<lambda>tr.
     and_then (comprehension (\<lambda>elem.
         and_then (linearize fdiv idiv junk q elem) (\<lambda>cs.
         line_string (map (\<lambda>z.
           (scale_x tr * (Re z + offset_x tr), scale_y tr * (Im z + offset_y tr))) cs)))
       (concat (results doc))) (\<lambda>lss.
     Inr (MultiLineString lss)))"
  by (simp add: read_eq polyline_def [abs_def] final_coords_def to_coords_def comp_def)

text \<open>
  Claim C8, as amended. Let the transform of the root element resolve. A document whose
  paths hold no element gives the empty collection. A collection that \<open>read\<close> returns has
  one polyline for each element of the paths, in the order of the traversal, the polyline at
  position \<open>k\<close> being the scaled linearisation of the element at position \<open>k\<close>.
\<close>

theorem one_polyline_per_segment:
  assumes "viewbox_transform convert float (root_attrib doc) = Inr tr"
  shows "(concat (results doc) = [] \<longrightarrow>
            read convert float fdiv idiv junk doc q = Inr (MultiLineString [])) \<and>
         (\<forall>out. read convert float fdiv idiv junk doc q = Inr out \<longrightarrow>
            length (geoms out) = length (concat (results doc)) \<and>
            (\<forall>k<length (concat (results doc)).
               \<exists>cs. linearize fdiv idiv junk q (concat (results doc) ! k) = Inr cs \<and>
                    geoms out ! k = LineString (final_coords tr (to_coords cs))))"
proof -
  let ?segs = "concat (results doc)"
  have empty: "?segs = [] \<longrightarrow> read convert float fdiv idiv junk doc q = Inr (MultiLineString [])"
  proof
    assume c: "?segs = []"
    show "read convert float fdiv idiv junk doc q = Inr (MultiLineString [])"
      unfolding read_eq c using assms by simp
  qed
  have shape: "length (geoms out) = length ?segs \<and>
      (\<forall>k<length ?segs. \<exists>cs. linearize fdiv idiv junk q (?segs ! k) = Inr cs \<and>
          geoms out ! k = LineString (final_coords tr (to_coords cs)))"
    if out: "read convert float fdiv idiv junk doc q = Inr out" for out
  proof -
    from out obtain lss where lss: "comprehension (polyline fdiv idiv junk q tr) ?segs = Inr lss"
      using assms by (cases "comprehension (polyline fdiv idiv junk q tr) ?segs")
        (simp_all add: read_eq)
    with out assms have o: "out = MultiLineString lss"
      by (simp add: read_eq)
    from comprehension_Inr [OF lss]
    have len: "length lss = length ?segs"
      and nth: "\<forall>k<length ?segs. polyline fdiv idiv junk q tr (?segs ! k) = Inr (lss ! k)"
      by simp_all
    have "\<exists>cs. linearize fdiv idiv junk q (?segs ! k) = Inr cs \<and>
        geoms out ! k = LineString (final_coords tr (to_coords cs))"
      if "k < length ?segs" for k
      using polyline_Inr [of fdiv idiv junk q tr "?segs ! k" "lss ! k"] nth that o by auto
    then show ?thesis
      using o len by simp
  qed
  from empty shape show ?thesis by blast
qed

theorem one_polyline_per_segment_witness:
  "read float_digits float_digits float_div exact_idiv no_junk empty_doc 1 =
     Inr (MultiLineString []) \<and>
   (\<exists>out. read float_digits float_digits float_div exact_idiv no_junk plain_doc 1 = Inr out \<and>
      length (geoms out) = 2 \<and>
      geoms out ! 0 = LineString [(0, 0), (1, 0)] \<and>
      geoms out ! 1 = LineString [(0, 0), (1, 0), (2, 0), (3, 0), (4, 0)])"
proof -
  let ?id = "\<lparr>scale_x = 1, scale_y = 1, offset_x = 0, offset_y = 0\<rparr>"
  let ?read = "read float_digits float_digits float_div exact_idiv no_junk"
  have e: "viewbox_transform float_digits float_digits (root_attrib empty_doc) = Inr ?id"
    by (simp add: empty_doc_def viewbox_transform_def)
  have p: "viewbox_transform float_digits float_digits (root_attrib plain_doc) = Inr ?id"
    by (simp add: plain_doc_def viewbox_transform_def)
  have ce: "concat (results empty_doc) = []"
    by (simp add: empty_doc_def)
  have cp: "concat (results plain_doc) = [Line 0 1, Curve 0 4 4 along_axis]"
    by (simp add: plain_doc_def)
  have a: "?read empty_doc 1 = Inr (MultiLineString [])"
    using one_polyline_per_segment [OF e, of float_div exact_idiv no_junk 1] ce by simp
  have "\<exists>out. ?read plain_doc 1 = Inr out"
    by (simp add: read_eq p cp polyline_examples)
  then obtain out where out: "?read plain_doc 1 = Inr out" by blast
  with one_polyline_per_segment [OF p, of float_div exact_idiv no_junk 1]
  have len: "length (geoms out) = length (concat (results plain_doc))"
    and nth: "\<forall>k<length (concat (results plain_doc)).
       \<exists>cs. linearize float_div exact_idiv no_junk 1 (concat (results plain_doc) ! k) = Inr cs \<and>
            geoms out ! k = LineString (final_coords ?id (to_coords cs))"
    by blast+
  have "0 < length (concat (results plain_doc))" by (simp add: cp)
  from nth [rule_format, OF this]
  have "\<exists>cs. linearize float_div exact_idiv no_junk 1 (Line 0 1) = Inr cs \<and>
            geoms out ! 0 = LineString (final_coords ?id (to_coords cs))"
    by (simp add: cp)
  then have g0: "geoms out ! 0 = LineString [(0, 0), (1, 0)]"
    by (simp add: linearize_examples final_coords_def to_coords_def)
  have "1 < length (concat (results plain_doc))" by (simp add: cp)
  from nth [rule_format, OF this]
  have "\<exists>cs. linearize float_div exact_idiv no_junk 1 (Curve 0 4 4 along_axis) = Inr cs \<and>
            geoms out ! 1 = LineString (final_coords ?id (to_coords cs))"
    by (simp add: cp)
  then have g1: "geoms out ! 1 = LineString [(0, 0), (1, 0), (2, 0), (3, 0), (4, 0)]"
    by (simp add: linearize_examples final_coords_def to_coords_def)
  from a out len g0 g1 show ?thesis by (simp add: cp)
qed

text \<open>
  Claim C8 as stated promises the empty collection for every document without path elements.
  A root element with a \<^verbatim>\<open>viewBox\<close> and no \<^verbatim>\<open>width\<close> makes \<open>read\<close> raise before the loops are
  reached, paths or no paths.
\<close>

theorem empty_document_with_bare_viewbox:
  "read float_digits float_digits float_div exact_idiv no_junk bare_viewbox_doc 1 =
     Inl (KeyError ''width'')"
  by (simp add: read_def bare_viewbox_doc_def viewbox_transform_def dict_getitem_def)

text \<open>
  Claim C9. The one thing \<open>read\<close> touches that may differ between two runs on the same
  document with the same quantization length is the content of the arrays that
  \<^verbatim>\<open>np.empty\<close> allocates. The result, collection or exception, does not depend on it.
\<close>

theorem read_junk_independent:
  "read convert float fdiv idiv junk doc q = read convert float fdiv idiv junk' doc q"
proof -
  have "linearize fdiv idiv junk q = linearize fdiv idiv junk' q"
    by (rule ext) (rule linearize_junk)
  then have "polyline fdiv idiv junk q = polyline fdiv idiv junk' q"
    by (simp add: polyline_def [abs_def])
  then show ?thesis by (simp add: read_eq)
qed

end
